theory Spec2Isabelle
  imports Complex_Main "HOL-Library.Multiset" "HOL-Library.Sublist"
begin

section \<open>Floating-point values\<close>

text \<open>
  Every number of \<^verbatim>\<open>daily_trader.py\<close> is a binary64 float. A float is modelled by
  its exact rational value, or one of the three special values. Every arithmetic
  operation computes the exact result and rounds it to the nearest binary64 value,
  ties to even (\<open>fl64\<close>). The sign of zero is not modelled: \<^verbatim>\<open>-0.0\<close> and
  \<^verbatim>\<open>0.0\<close> are both \<open>Fin 0\<close>.
\<close>

datatype pyfloat = Fin rat | PInf | NInf | NaN

definition pow2 :: "int \<Rightarrow> rat" where
  "pow2 e = (if 0 \<le> e then 2 ^ nat e else 1 / 2 ^ nat (- e))"

text \<open>
  \<open>ilog2 k x\<close> is the binary exponent of a positive \<open>x\<close>: the \<open>e\<close> with
  \<open>2^e \<le> x < 2^(e+1)\<close>, found by halving or doubling at most \<open>k\<close> times.
\<close>

fun ilog2 :: "nat \<Rightarrow> rat \<Rightarrow> int" where
  "ilog2 0 x = 0"
| "ilog2 (Suc k) x =
     (if 2 \<le> x then ilog2 k (x / 2) + 1
      else if x < 1 then ilog2 k (x * 2) - 1
      else 0)"

definition round_half_even :: "rat \<Rightarrow> int" where
  "round_half_even x =
     (let f = \<lfloor>x\<rfloor>; d = x - of_int f
      in if d < 1 / 2 then f
         else if 1 / 2 < d then f + 1
         else if even f then f else f + 1)"

text \<open>
  Rounding to binary64: 53 significant bits, exponents from -1022 to 1023, gradual
  underflow below \<open>2^-1022\<close> (spacing \<open>2^-1074\<close>), overflow to an infinity.
  The exponent search is given 1100 steps, more than any binary64 exponent needs: a
  value it cannot reach in 1100 steps lies below \<open>2^-1022\<close> or above \<open>2^1024\<close>,
  and the two tests on \<open>e\<close> send it to the subnormal grid or to an infinity
  (lemmas \<open>fl64_subnormal\<close>, \<open>fl64_normal\<close>, \<open>fl64_overflow\<close>).
\<close>

definition fl64 :: "rat \<Rightarrow> pyfloat" where
  "fl64 x =
     (if x = 0 then Fin 0
      else let e = ilog2 1100 \<bar>x\<bar>
      in if e < - 1022
         then Fin (of_int (round_half_even (x / pow2 (- 1074))) * pow2 (- 1074))
         else let q = pow2 (e - 52); m = round_half_even (x / q)
              in if 1023 < e \<or> (e = 1023 \<and> \<bar>m\<bar> = 2 ^ 53)
                 then (if 0 < x then PInf else NInf)
                 else Fin (of_int m * q))"

fun fneg :: "pyfloat \<Rightarrow> pyfloat" where
  "fneg (Fin a) = Fin (- a)"
| "fneg PInf = NInf"
| "fneg NInf = PInf"
| "fneg NaN = NaN"

fun fadd :: "pyfloat \<Rightarrow> pyfloat \<Rightarrow> pyfloat" where
  "fadd NaN _ = NaN"
| "fadd _ NaN = NaN"
| "fadd (Fin a) (Fin b) = fl64 (a + b)"
| "fadd PInf NInf = NaN"
| "fadd NInf PInf = NaN"
| "fadd PInf _ = PInf"
| "fadd _ PInf = PInf"
| "fadd NInf _ = NInf"
| "fadd _ NInf = NInf"

definition fsub :: "pyfloat \<Rightarrow> pyfloat \<Rightarrow> pyfloat" where
  "fsub a b = fadd a (fneg b)"

fun fsign :: "pyfloat \<Rightarrow> int" where
  "fsign (Fin a) = (if 0 < a then 1 else if a < 0 then - 1 else 0)"
| "fsign PInf = 1"
| "fsign NInf = - 1"
| "fsign NaN = 0"

fun fmul :: "pyfloat \<Rightarrow> pyfloat \<Rightarrow> pyfloat" where
  "fmul NaN _ = NaN"
| "fmul _ NaN = NaN"
| "fmul (Fin a) (Fin b) = fl64 (a * b)"
| "fmul a b =
     (let s = fsign a * fsign b
      in if s = 0 then NaN else if 0 < s then PInf else NInf)"

text \<open>Division of numpy floats: a zero divisor gives an infinity or NaN, never an error.\<close>

fun fdiv :: "pyfloat \<Rightarrow> pyfloat \<Rightarrow> pyfloat" where
  "fdiv NaN _ = NaN"
| "fdiv _ NaN = NaN"
| "fdiv (Fin a) (Fin b) =
     (if b = 0 then (if a = 0 then NaN else if 0 < a then PInf else NInf)
      else fl64 (a / b))"
| "fdiv (Fin a) _ = Fin 0"
| "fdiv PInf (Fin b) = (if b < 0 then NInf else PInf)"
| "fdiv NInf (Fin b) = (if b < 0 then PInf else NInf)"
| "fdiv _ _ = NaN"

text \<open>Comparisons: every comparison with NaN is false.\<close>

fun flt :: "pyfloat \<Rightarrow> pyfloat \<Rightarrow> bool" where
  "flt (Fin a) (Fin b) = (a < b)"
| "flt NInf (Fin b) = True"
| "flt NInf PInf = True"
| "flt (Fin a) PInf = True"
| "flt _ _ = False"

definition fle :: "pyfloat \<Rightarrow> pyfloat \<Rightarrow> bool" where
  "fle a b = (flt a b \<or> (a = b \<and> a \<noteq> NaN))"

definition fgt :: "pyfloat \<Rightarrow> pyfloat \<Rightarrow> bool" where
  "fgt a b = flt b a"

text \<open>A decimal literal of the source, such as \<^verbatim>\<open>0.8\<close>, is the nearest float.\<close>

definition lit :: "rat \<Rightarrow> pyfloat" where
  "lit q = fl64 q"

subsection \<open>Python's own float operations\<close>

datatype py_error = ZeroDivisionError

text \<open>
  \<^verbatim>\<open>a / b\<close> on Python floats raises when the divisor is zero. The budget and the
  prices that allocate_budget divides are Python floats.
\<close>

definition py_truediv :: "pyfloat \<Rightarrow> pyfloat \<Rightarrow> py_error + pyfloat" where
  "py_truediv a b = (if b = Fin 0 then Inl ZeroDivisionError else Inr (fdiv a b))"

text \<open>
  \<^verbatim>\<open>round(x, nd)\<close> with \<open>nd \<ge> 0\<close>: the exact value is rounded half-even to
  \<open>nd\<close> decimals and the decimal result converted to the nearest float; NaN and the
  infinities round to themselves.
\<close>

fun py_round :: "pyfloat \<Rightarrow> nat \<Rightarrow> pyfloat" where
  "py_round (Fin v) nd = fl64 (of_int (round_half_even (v * 10 ^ nd)) / 10 ^ nd)"
| "py_round x nd = x"

section \<open>Data model\<close>

text \<open>The dict returned by \<^verbatim>\<open>compute_score\<close>.\<close>

record score_result =
  score :: pyfloat
  momentum_10d :: pyfloat
  rsi :: pyfloat
  sma20 :: pyfloat
  sma50 :: pyfloat
  price :: pyfloat

text \<open>A pick: the score dict after \<^verbatim>\<open>score_obj.update({"symbol": s})\<close>.\<close>

record pick = score_result +
  symbol :: string

text \<open>One entry of the plan built by \<^verbatim>\<open>allocate_budget\<close>.\<close>

record alloc_entry =
  plan_symbol :: string
  plan_price :: pyfloat
  plan_score :: pyfloat
  plan_rsi :: pyfloat
  allocation :: pyfloat
  shares :: pyfloat
  cost :: pyfloat
  take_profit_price :: pyfloat
  stop_loss_price :: pyfloat

section \<open>allocate_budget\<close>

text \<open>
  The body of the \<^verbatim>\<open>for p in picks\<close> loop. \<open>per\<close> is \<^verbatim>\<open>budget / n\<close>.
  The integer \<^verbatim>\<open>1\<close> in \<^verbatim>\<open>1 + take_profit_pct\<close> converts to the float 1.0.
\<close>

definition allocate_entry ::
  "pyfloat \<Rightarrow> pyfloat \<Rightarrow> pyfloat \<Rightarrow> pick \<Rightarrow> py_error + alloc_entry" where
  "allocate_entry per take_profit_pct stop_loss_pct p =
     (case py_truediv per (price p) of
        Inl e \<Rightarrow> Inl e
      | Inr q \<Rightarrow>
          let sh = py_round q 4;
              c = py_round (fmul sh (price p)) 2;
              target_price = py_round (fmul (price p) (fadd (Fin 1) take_profit_pct)) 2;
              stop_price = py_round (fmul (price p) (fsub (Fin 1) stop_loss_pct)) 2
          in Inr \<lparr> plan_symbol = symbol p, plan_price = price p, plan_score = score p,
                    plan_rsi = rsi p, allocation = py_round per 2, shares = sh, cost = c,
                    take_profit_price = target_price, stop_loss_price = stop_price \<rparr>)"

text \<open>The loop: entries are appended in order; the first error ends the call.\<close>

fun allocate_loop ::
  "pyfloat \<Rightarrow> pyfloat \<Rightarrow> pyfloat \<Rightarrow> pick list \<Rightarrow> alloc_entry list
     \<Rightarrow> py_error + alloc_entry list" where
  "allocate_loop per tp sl [] plan = Inr plan"
| "allocate_loop per tp sl (p # ps) plan =
     (case allocate_entry per tp sl p of
        Inl e \<Rightarrow> Inl e
      | Inr en \<Rightarrow> allocate_loop per tp sl ps (plan @ [en]))"

text \<open>
  \<^verbatim>\<open>len(picks)\<close> is converted to a float by the division; a list length is far
  below \<open>2^53\<close>, so the conversion is exact.
\<close>

definition allocate_budget ::
  "pyfloat \<Rightarrow> pick list \<Rightarrow> pyfloat \<Rightarrow> pyfloat \<Rightarrow> py_error + alloc_entry list" where
  "allocate_budget budget picks take_profit_pct stop_loss_pct =
     (let n = length picks
      in if n = 0 then Inr []
         else case py_truediv budget (Fin (of_nat n)) of
                Inl e \<Rightarrow> Inl e
              | Inr per \<Rightarrow> allocate_loop per take_profit_pct stop_loss_pct picks [])"

text \<open>
  The entry as the specification words it: every field is a formula in the per-symbol
  amount, the pick's price and the two percentages.
\<close>

definition spec_entry :: "pyfloat \<Rightarrow> pyfloat \<Rightarrow> pyfloat \<Rightarrow> pick \<Rightarrow> alloc_entry" where
  "spec_entry per_symbol take_profit_pct stop_loss_pct p =
     \<lparr> plan_symbol = symbol p, plan_price = price p, plan_score = score p, plan_rsi = rsi p,
       allocation = py_round per_symbol 2,
       shares = py_round (fdiv per_symbol (price p)) 4,
       cost = py_round (fmul (py_round (fdiv per_symbol (price p)) 4) (price p)) 2,
       take_profit_price = py_round (fmul (price p) (fadd (Fin 1) take_profit_pct)) 2,
       stop_loss_price = py_round (fmul (price p) (fsub (Fin 1) stop_loss_pct)) 2 \<rparr>"

text \<open>Sample picks for the concrete checks.\<close>

definition sample_pick :: "string \<Rightarrow> rat \<Rightarrow> pick" where
  "sample_pick s v = \<lparr> score = Fin 1, momentum_10d = Fin 0, rsi = Fin 50, sma20 = Fin v,
                 sma50 = Fin v, price = Fin v, symbol = s \<rparr>"

definition zero_pick :: pick where
  "zero_pick = \<lparr> score = Fin 1, momentum_10d = Fin 0, rsi = Fin 50, sma20 = Fin 0,
                 sma50 = Fin 0, price = Fin 0, symbol = ''ZERO'' \<rparr>"

text \<open>The allocation fields of a returned plan, in order.\<close>

definition allocations :: "py_error + alloc_entry list \<Rightarrow> pyfloat list" where
  "allocations res = (case res of Inl e \<Rightarrow> [] | Inr plan \<Rightarrow> map allocation plan)"

text \<open>The three picks of Scenario B, at 100, 150 and 300.\<close>

definition three_picks :: "pick list" where
  "three_picks = [sample_pick ''AAA'' 100, sample_pick ''BBB'' 150, sample_pick ''CCC'' 300]"

section \<open>compute_score\<close>

text \<open>
  The data frame is represented by its \<^verbatim>\<open>Close\<close> column, the only column that
  compute_score reads, oldest close first. The closes are finite numbers:
  \<^verbatim>\<open>fetch_history\<close> drops every row that holds a NaN.
\<close>

type_synonym closes = "rat list"

text \<open>
  \<^verbatim>\<open>close.iloc[-k]\<close>: the \<open>k\<close>-th close from the end; out of range it raises
  IndexError (\<open>None\<close>).
\<close>

definition iloc_neg :: "closes \<Rightarrow> nat \<Rightarrow> pyfloat option" where
  "iloc_neg close k =
     (if 1 \<le> k \<and> k \<le> length close then Some (Fin (close ! (length close - k))) else None)"

text \<open>
  The 14-period RSI comes from the library \<^verbatim>\<open>ta\<close>, which is not part of the
  repository: \<open>rsi_indicator close\<close> stands for
  \<^verbatim>\<open>RSIIndicator(close, window=14).rsi().iloc[-1]\<close>, with \<open>None\<close> when the
  library raises. compute_score replaces a NaN and an exception by 50.0.
\<close>

type_synonym rsi_library = "closes \<Rightarrow> pyfloat option"

definition rsi_of :: "rsi_library \<Rightarrow> closes \<Rightarrow> pyfloat" where
  "rsi_of rsi_indicator close =
     (case rsi_indicator close of
        None \<Rightarrow> Fin 50
      | Some r \<Rightarrow> if r = NaN then Fin 50 else r)"

text \<open>
  \<^verbatim>\<open>close.rolling(w).mean().iloc[-1]\<close>: the mean of the last \<open>w\<close> closes, NaN when
  there are fewer than \<open>w\<close>. The window is summed left to right here; pandas sums it
  with a compensation term, which can change the last bit of the mean and nothing else.
\<close>

definition rolling_mean_last :: "nat \<Rightarrow> closes \<Rightarrow> pyfloat" where
  "rolling_mean_last w close =
     (if length close < w then NaN
      else fdiv (foldl fadd (Fin 0) (map Fin (drop (length close - w) close)))
                (Fin (of_nat w)))"

text \<open>
  \<^verbatim>\<open>close.pct_change(1).iloc[-1]\<close>: the last close over the one before, minus 1;
  NaN for a single close; IndexError (\<open>None\<close>) for an empty column.
\<close>

definition pct_change_last :: "closes \<Rightarrow> pyfloat option" where
  "pct_change_last close =
     (if close = [] then None
      else if length close = 1 then Some NaN
      else Some (fsub (fdiv (Fin (close ! (length close - 1))) (Fin (close ! (length close - 2))))
                      (Fin 1)))"

definition momentum_of :: "closes \<Rightarrow> pyfloat option" where
  "momentum_of close =
     (if 10 \<le> length close
      then (case iloc_neg close 1 of
              None \<Rightarrow> None
            | Some a \<Rightarrow> (case iloc_neg close 10 of
                          None \<Rightarrow> None
                        | Some b \<Rightarrow> Some (fsub (fdiv a b) (Fin 1))))
      else Some (Fin 0))"

definition sma_of :: "nat \<Rightarrow> closes \<Rightarrow> pyfloat option" where
  "sma_of w close =
     (if w \<le> length close then Some (rolling_mean_last w close) else iloc_neg close 1)"

text \<open>The four additive steps on \<^verbatim>\<open>score\<close>, in the order of the source.\<close>

definition add_momentum :: "pyfloat \<Rightarrow> pyfloat \<Rightarrow> pyfloat" where
  "add_momentum sc m = fadd sc (fmul m (Fin 10))"

definition add_rsi :: "pyfloat \<Rightarrow> pyfloat \<Rightarrow> pyfloat" where
  "add_rsi sc r =
     (if flt r (Fin 30) then fadd sc (lit (8 / 10))
      else if fle (Fin 40) r \<and> fle r (Fin 70) then fadd sc (lit (7 / 10))
      else if fgt r (Fin 75) then fsub sc (lit (8 / 10))
      else sc)"

definition add_sma :: "pyfloat \<Rightarrow> pyfloat \<Rightarrow> pyfloat \<Rightarrow> pyfloat" where
  "add_sma sc s20 s50 =
     (if fgt s20 s50 then fadd sc (lit (8 / 10)) else fsub sc (lit (2 / 10)))"

definition add_recent :: "pyfloat \<Rightarrow> pyfloat option \<Rightarrow> pyfloat" where
  "add_recent sc recent_change =
     (case recent_change of
        None \<Rightarrow> sc
      | Some c \<Rightarrow> if c \<noteq> NaN then fadd sc (fmul c (Fin 5)) else sc)"

text \<open>
  Any exception that reaches the outer \<^verbatim>\<open>try\<close> makes the function return
  \<^verbatim>\<open>None\<close>; so does the length check.
\<close>

definition compute_score :: "rsi_library \<Rightarrow> closes \<Rightarrow> score_result option" where
  "compute_score rsi_indicator close =
     (if length close < 20 then None
      else case momentum_of close of
        None \<Rightarrow> None
      | Some m \<Rightarrow>
          let r = rsi_of rsi_indicator close
          in (case sma_of 20 close of
                None \<Rightarrow> None
              | Some s20 \<Rightarrow>
                  (case sma_of 50 close of
                     None \<Rightarrow> None
                   | Some s50 \<Rightarrow>
                       let sc = add_recent (add_sma (add_rsi (add_momentum (Fin 0) m) r) s20 s50)
                                  (pct_change_last close)
                       in (case iloc_neg close 1 of
                             None \<Rightarrow> None
                           | Some p \<Rightarrow>
                               Some \<lparr> score = sc, momentum_10d = m, rsi = r, sma20 = s20,
                                      sma50 = s50, price = p \<rparr>))))"





definition flat20 :: closes where
  "flat20 = replicate 20 100"

text \<open>
  A value that a float operation can return: special, or a rational that \<open>fl64\<close>
  leaves unchanged.
\<close>

definition is_float :: "pyfloat \<Rightarrow> bool" where
  "is_float y = (case y of Fin v \<Rightarrow> fl64 v = Fin v | _ \<Rightarrow> True)"

text \<open>An RSI library whose last value is NaN, as on a series without variance.\<close>

definition rsi_undefined :: rsi_library where
  "rsi_undefined close = Some NaN"

section \<open>pick_top_symbols\<close>



















section \<open>plan_trades_from_budget and the command line\<close>




section \<open>Properties of the rounding function\<close>

lemma pow2_powi: "pow2 e = 2 powi e"
  by (simp add: pow2_def power_int_def power_divide)

lemma floor_rat_numeral_div:
  "\<lfloor>(numeral a / numeral b :: rat)\<rfloor> = numeral a div numeral b"
  by (metis floor_divide_of_int_eq of_int_numeral)

lemma floor_rat_neg_numeral_div:
  "\<lfloor>(- numeral a / numeral b :: rat)\<rfloor> = - numeral a div numeral b"
  by (metis floor_divide_of_int_eq of_int_numeral of_int_minus)

lemmas fl_eval = pow2_def round_half_even_def Let_def floor_rat_numeral_div
  floor_rat_neg_numeral_div

lemma pow2_pos: "0 < pow2 e"
  by (simp add: pow2_powi)

lemma pow2_add: "pow2 (a + b) = pow2 a * pow2 b"
  by (simp add: pow2_powi power_int_add)

lemma pow2_Suc: "pow2 (e + 1) = 2 * pow2 e"
  by (simp add: pow2_add) (simp add: pow2_def)

lemma pow2_mono: "a \<le> b \<Longrightarrow> pow2 a \<le> pow2 b"
  by (simp add: pow2_powi power_int_increasing)

lemma pow2_strict_mono: "a < b \<Longrightarrow> pow2 a < pow2 b"
  by (simp add: pow2_powi power_int_strict_increasing)

lemma ilog2_bracket:
  "pow2 (- int k) \<le> x \<Longrightarrow> x < pow2 (int k + 1) \<Longrightarrow>
   pow2 (ilog2 k x) \<le> x \<and> x < pow2 (ilog2 k x + 1)"
proof (induction k arbitrary: x)
  case 0
  then show ?case by (simp add: pow2_def)
next
  case (Suc k)
  consider "2 \<le> x" | "x < 1" | "1 \<le> x" "x < 2" by linarith
  then show ?case
  proof cases
    case 1
    have "pow2 (- int k) \<le> pow2 0" by (rule pow2_mono) simp
    then have a: "pow2 (- int k) \<le> x / 2" using 1 by (simp add: pow2_def)
    have "x < 2 * pow2 (int k + 1)" using Suc.prems(2) pow2_Suc [of "int k + 1"]
      by (simp add: add.commute)
    then have b: "x / 2 < pow2 (int k + 1)" by simp
    from Suc.IH [OF a b] show ?thesis
      using 1 pow2_Suc [of "ilog2 k (x / 2)"] pow2_Suc [of "ilog2 k (x / 2) + 1"] by simp
  next
    case 2
    have "pow2 (- int k) = 2 * pow2 (- int (Suc k))"
      using pow2_Suc [of "- int (Suc k)"] by simp
    then have a: "pow2 (- int k) \<le> x * 2" using Suc.prems(1) by simp
    have "pow2 1 \<le> pow2 (int k + 1)" by (rule pow2_mono) simp
    then have b: "x * 2 < pow2 (int k + 1)" using 2 by (simp add: pow2_def)
    from Suc.IH [OF a b] show ?thesis
      using 2 pow2_Suc [of "ilog2 k (x * 2) - 1"] pow2_Suc [of "ilog2 k (x * 2)"] by simp
  next
    case 3
    then show ?thesis by (simp add: pow2_def)
  qed
qed

lemma pow2_bracket_unique:
  assumes "pow2 e \<le> x" "x < pow2 (e + 1)" "pow2 e' \<le> x" "x < pow2 (e' + 1)"
  shows "e = e'"
proof (rule ccontr)
  assume "e \<noteq> e'"
  then consider "e + 1 \<le> e'" | "e' + 1 \<le> e" by linarith
  then show False
  proof cases
    case 1
    then have "pow2 (e + 1) \<le> pow2 e'" by (rule pow2_mono)
    with assms show False by linarith
  next
    case 2
    then have "pow2 (e' + 1) \<le> pow2 e" by (rule pow2_mono)
    with assms show False by linarith
  qed
qed

lemma ilog2_eq:
  assumes "pow2 e \<le> x" "x < pow2 (e + 1)" "- int k \<le> e" "e \<le> int k"
  shows "ilog2 k x = e"
proof -
  have "pow2 (- int k) \<le> pow2 e" using assms(3) by (rule pow2_mono)
  then have a: "pow2 (- int k) \<le> x" using assms(1) by linarith
  have "pow2 (e + 1) \<le> pow2 (int k + 1)" using assms(4) by (intro pow2_mono) simp
  then have b: "x < pow2 (int k + 1)" using assms(2) by linarith
  from ilog2_bracket [OF a b] show ?thesis
    using pow2_bracket_unique assms(1,2) by blast
qed

lemma fl64_normal:
  assumes "pow2 e \<le> \<bar>x\<bar>" "\<bar>x\<bar> < pow2 (e + 1)" "- 1022 \<le> e" "e \<le> 1023"
  shows "fl64 x =
     (if e = 1023 \<and> \<bar>round_half_even (x / pow2 (e - 52))\<bar> = 2 ^ 53
      then (if 0 < x then PInf else NInf)
      else Fin (of_int (round_half_even (x / pow2 (e - 52))) * pow2 (e - 52)))"
proof -
  have "0 < \<bar>x\<bar>" using assms(1) pow2_pos [of e] by linarith
  then have nz: "x \<noteq> 0" by simp
  have il: "ilog2 1100 \<bar>x\<bar> = e"
    using assms by (intro ilog2_eq) simp_all
  show ?thesis using nz il assms(3,4) by (simp add: fl64_def Let_def)
qed

lemma rhe_of_int: "round_half_even (of_int m) = m"
  by (simp add: round_half_even_def)

lemma rhe_error: "\<bar>of_int (round_half_even x) - x\<bar> \<le> 1 / 2"
proof -
  have "of_int \<lfloor>x\<rfloor> \<le> x" "x < of_int \<lfloor>x\<rfloor> + 1" by linarith+
  then show ?thesis
    by (auto simp: round_half_even_def Let_def)
qed

lemma rhe_nonneg: "0 \<le> x \<Longrightarrow> 0 \<le> round_half_even x"
proof -
  assume "0 \<le> x"
  then have "0 \<le> \<lfloor>x\<rfloor>" by simp
  then show ?thesis by (auto simp: round_half_even_def Let_def)
qed


lemma ilog2_small: "0 < x \<Longrightarrow> x < pow2 (- int k) \<Longrightarrow> ilog2 k x = - int k"
proof (induction k arbitrary: x)
  case 0
  then show ?case by simp
next
  case (Suc k)
  have "pow2 (- int (Suc k)) \<le> pow2 0" by (rule pow2_mono) simp
  moreover have "pow2 0 = 1" by (simp add: pow2_def)
  ultimately have x1: "x < 1" using Suc.prems(2) by linarith
  have "pow2 (- int k) = 2 * pow2 (- int (Suc k))"
    using pow2_Suc [of "- int (Suc k)"] by simp
  then have "x * 2 < pow2 (- int k)" using Suc.prems(2) by simp
  moreover have "0 < x * 2" using Suc.prems(1) by simp
  ultimately have "ilog2 k (x * 2) = - int k" by (rule Suc.IH [rotated])
  then show ?case using x1 by simp
qed

lemma ilog2_large: "pow2 (int k + 1) \<le> x \<Longrightarrow> ilog2 k x = int k"
proof (induction k arbitrary: x)
  case 0
  then show ?case by simp
next
  case (Suc k)
  have "pow2 1 \<le> pow2 (int (Suc k) + 1)" by (rule pow2_mono) simp
  moreover have "pow2 1 = 2" by (simp add: pow2_def)
  ultimately have x2: "2 \<le> x" using Suc.prems by linarith
  have "pow2 (int (Suc k) + 1) = 2 * pow2 (int k + 1)"
    using pow2_Suc [of "int k + 1"] by (simp add: add.commute)
  then have "pow2 (int k + 1) \<le> x / 2" using Suc.prems by simp
  then have "ilog2 k (x / 2) = int k" by (rule Suc.IH)
  then show ?case using x2 by simp
qed

lemma fl64_subnormal:
  assumes "x \<noteq> 0" "\<bar>x\<bar> < pow2 (- 1022)"
  shows "fl64 x = Fin (of_int (round_half_even (x / pow2 (- 1074))) * pow2 (- 1074))"
proof -
  have "ilog2 1100 \<bar>x\<bar> < - 1022"
  proof (cases "\<bar>x\<bar> < pow2 (- int 1100)")
    case True
    then have "ilog2 1100 \<bar>x\<bar> = - int 1100" using assms(1) by (intro ilog2_small) simp_all
    then show ?thesis by simp
  next
    case False
    then have a: "pow2 (- int 1100) \<le> \<bar>x\<bar>" by simp
    have "pow2 (- 1022) \<le> pow2 (int 1100 + 1)" by (rule pow2_mono) simp
    then have b: "\<bar>x\<bar> < pow2 (int 1100 + 1)" using assms(2) by linarith
    from ilog2_bracket [OF a b] have "pow2 (ilog2 1100 \<bar>x\<bar>) < pow2 (- 1022)"
      using assms(2) by linarith
    then show ?thesis
      using pow2_mono [of "- 1022" "ilog2 1100 \<bar>x\<bar>"] by (cases "ilog2 1100 \<bar>x\<bar> < - 1022") auto
  qed
  then show ?thesis using assms(1) by (simp add: fl64_def Let_def)
qed

lemma fl64_overflow:
  assumes "pow2 1024 \<le> \<bar>x\<bar>"
  shows "fl64 x = (if 0 < x then PInf else NInf)"
proof -
  have "0 < \<bar>x\<bar>" using assms pow2_pos [of 1024] by linarith
  then have nz: "x \<noteq> 0" by simp
  have "1023 < ilog2 1100 \<bar>x\<bar>"
  proof (cases "pow2 (int 1100 + 1) \<le> \<bar>x\<bar>")
    case True
    then have "ilog2 1100 \<bar>x\<bar> = int 1100" by (rule ilog2_large)
    then show ?thesis by simp
  next
    case False
    then have b: "\<bar>x\<bar> < pow2 (int 1100 + 1)" by simp
    have "pow2 (- int 1100) \<le> pow2 1024" by (rule pow2_mono) simp
    then have a: "pow2 (- int 1100) \<le> \<bar>x\<bar>" using assms by linarith
    from ilog2_bracket [OF a b] have "pow2 1024 < pow2 (ilog2 1100 \<bar>x\<bar> + 1)"
      using assms by linarith
    then show ?thesis
      using pow2_mono [of "ilog2 1100 \<bar>x\<bar> + 1" 1024]
      by (cases "1023 < ilog2 1100 \<bar>x\<bar>") auto
  qed
  then show ?thesis using nz by (simp add: fl64_def Let_def)
qed

lemma normal_bracket_exists:
  assumes "pow2 (- 1022) \<le> x" "x < pow2 1024"
  shows "\<exists>e. - 1022 \<le> e \<and> e \<le> 1023 \<and> pow2 e \<le> x \<and> x < pow2 (e + 1)"
proof -
  have "pow2 (- int 1100) \<le> pow2 (- 1022)" by (rule pow2_mono) simp
  then have a: "pow2 (- int 1100) \<le> x" using assms(1) by linarith
  have "pow2 1024 \<le> pow2 (int 1100 + 1)" by (rule pow2_mono) simp
  then have b: "x < pow2 (int 1100 + 1)" using assms(2) by linarith
  let ?e = "ilog2 1100 x"
  from ilog2_bracket [OF a b] have br: "pow2 ?e \<le> x" "x < pow2 (?e + 1)" by simp_all
  have "pow2 (- 1022) < pow2 (?e + 1)" using br(2) assms(1) by linarith
  then have lo: "- 1022 \<le> ?e"
    using pow2_mono [of "?e + 1" "- 1022"] by (cases "- 1022 \<le> ?e") auto
  have "pow2 ?e < pow2 1024" using br(1) assms(2) by linarith
  then have hi: "?e \<le> 1023"
    using pow2_mono [of 1024 ?e] by (cases "?e \<le> 1023") auto
  show ?thesis using lo hi br by blast
qed

lemma pow2_diff: "pow2 a / pow2 b = pow2 (a - b)"
  by (simp add: pow2_powi power_int_diff)

lemma pow2_0: "pow2 0 = 1"
  by (simp add: pow2_def)

lemma pow2_53: "pow2 53 = of_int (2 ^ 53)"
  by (simp add: pow2_def)

lemma pow2_nat: "0 \<le> k \<Longrightarrow> pow2 k = of_int (2 ^ nat k)"
  by (simp add: pow2_def)

lemma pow2_less_cancel: "pow2 a < pow2 b \<Longrightarrow> a < b"
  using pow2_mono [of b a] by (cases "a < b") auto

lemma pow2_le_cancel: "pow2 a \<le> pow2 b \<Longrightarrow> a \<le> b"
  using pow2_strict_mono [of b a] by (cases "a \<le> b") auto


lemma fl64_nonneg: "0 \<le> x \<Longrightarrow> fle (Fin 0) (fl64 x)"
proof -
  assume x: "0 \<le> x"
  have "\<And>e. 0 \<le> of_int (round_half_even (x / pow2 e)) * pow2 e"
  proof -
    fix e
    have "0 \<le> x / pow2 e" using x pow2_pos [of e] by simp
    then have "0 \<le> round_half_even (x / pow2 e)" by (rule rhe_nonneg)
    then have "(0 :: rat) \<le> of_int (round_half_even (x / pow2 e))" by simp
    then show "0 \<le> of_int (round_half_even (x / pow2 e)) * pow2 e"
      using pow2_pos [of e] by simp
  qed
  then have "\<And>e. 0 < of_int (round_half_even (x / pow2 e)) * pow2 e
      \<or> 0 = of_int (round_half_even (x / pow2 e)) * pow2 e"
    by (simp add: order.order_iff_strict)
  then show ?thesis using x
    by (auto simp: fl64_def Let_def fle_def)
qed

lemma scaled_int:
  assumes "j \<le> k"
  shows "of_int m * pow2 k / pow2 j = of_int (m * 2 ^ nat (k - j))"
proof -
  have "of_int m * pow2 k / pow2 j = of_int m * pow2 (k - j)"
    by (simp only: times_divide_eq_right [symmetric] pow2_diff)
  also have "\<dots> = of_int m * of_int (2 ^ nat (k - j))"
    using assms pow2_nat [of "k - j"] by simp
  finally show ?thesis by simp
qed

lemma fl64_exact:
  assumes m: "\<bar>m\<bar> < 2 ^ 53" and k: "- 1074 \<le> k"
    and r: "\<bar>of_int m * pow2 k\<bar> < pow2 1024"
  shows "fl64 (of_int m * pow2 k) = Fin (of_int m * pow2 k)"
proof -
  let ?y = "of_int m * pow2 k :: rat"
  show ?thesis
  proof (cases "?y = 0")
    case True
    then show ?thesis by (simp add: fl64_def)
  next
    case nz: False
    show ?thesis
    proof (cases "\<bar>?y\<bar> < pow2 (- 1022)")
      case True
      have "?y / pow2 (- 1074) = of_int (m * 2 ^ nat (k - (- 1074)))"
        using k by (intro scaled_int) simp
      then have "of_int (round_half_even (?y / pow2 (- 1074))) * pow2 (- 1074)
                   = ?y / pow2 (- 1074) * pow2 (- 1074)"
        by (simp only: rhe_of_int)
      also have "\<dots> = ?y" using pow2_pos [of "- 1074"] by simp
      finally show ?thesis using fl64_subnormal [OF nz True] by simp
    next
      case False
      then have lo: "pow2 (- 1022) \<le> \<bar>?y\<bar>" by simp
      from normal_bracket_exists [OF lo r] obtain e where
        e: "- 1022 \<le> e" "e \<le> 1023" "pow2 e \<le> \<bar>?y\<bar>" "\<bar>?y\<bar> < pow2 (e + 1)" by blast
      have "\<bar>?y\<bar> = of_int \<bar>m\<bar> * pow2 k" using pow2_pos [of k] by (simp add: abs_mult)
      moreover have "(of_int \<bar>m\<bar> :: rat) < of_int (2 ^ 53)" using m by (simp only: of_int_less_iff)
      ultimately have "\<bar>?y\<bar> < of_int (2 ^ 53) * pow2 k" using pow2_pos [of k] by simp
      also have "\<dots> = pow2 (53 + k)" by (simp only: pow2_add pow2_53)
      finally have "pow2 e < pow2 (53 + k)" using e(3) by linarith
      then have ek: "e - 52 \<le> k" using pow2_less_cancel by fastforce
      let ?q = "pow2 (e - 52)"
      let ?M = "m * 2 ^ nat (k - (e - 52))"
      have yq: "?y / ?q = of_int ?M" using ek by (rule scaled_int)
      then have rM: "round_half_even (?y / ?q) = ?M" by (simp only: rhe_of_int)
      have bk: "of_int ?M * ?q = ?y"
        using yq pow2_pos [of "e - 52"] by (metis nonzero_divide_eq_eq order_less_irrefl)
      have "pow2 (53 + (e - 52)) = of_int (2 ^ 53) * ?q"
        by (simp only: pow2_add pow2_53)
      moreover have "53 + (e - 52) = e + 1" by simp
      ultimately have p53: "pow2 (e + 1) = of_int (2 ^ 53) * ?q" by simp
      have "\<bar>of_int ?M * ?q\<bar> < pow2 (e + 1)" using e(4) by (simp only: bk)
      then have "\<bar>of_int ?M * ?q\<bar> < of_int (2 ^ 53) * ?q" by (simp only: p53)
      then have "\<bar>of_int ?M :: rat\<bar> < of_int (2 ^ 53)"
        using pow2_pos [of "e - 52"] by (simp add: abs_mult)
      then have "\<bar>?M\<bar> < 2 ^ 53" by (metis of_int_abs of_int_less_iff)
      then have "\<bar>?M\<bar> \<noteq> 2 ^ 53" by simp
      then show ?thesis
        using fl64_normal [OF e(3) e(4) e(1) e(2)] rM bk by simp
    qed
  qed
qed

lemma fl64_0: "fl64 0 = Fin 0"
  by (simp add: fl64_def)

lemma fl64_cases [case_names zero subnormal normal overflow]:
  obtains "x = 0"
  | "x \<noteq> 0" "\<bar>x\<bar> < pow2 (- 1022)"
      "fl64 x = Fin (of_int (round_half_even (x / pow2 (- 1074))) * pow2 (- 1074))"
  | e where "- 1022 \<le> e" "e \<le> 1023" "pow2 e \<le> \<bar>x\<bar>" "\<bar>x\<bar> < pow2 (e + 1)"
      "fl64 x =
         (if e = 1023 \<and> \<bar>round_half_even (x / pow2 (e - 52))\<bar> = 2 ^ 53
          then (if 0 < x then PInf else NInf)
          else Fin (of_int (round_half_even (x / pow2 (e - 52))) * pow2 (e - 52)))"
  | "pow2 1024 \<le> \<bar>x\<bar>" "fl64 x = (if 0 < x then PInf else NInf)"
proof (cases "x = 0")
  case True
  then show ?thesis using that(1) by blast
next
  case nz: False
  show ?thesis
  proof (cases "\<bar>x\<bar> < pow2 (- 1022)")
    case True
    then show ?thesis using that(2) nz fl64_subnormal by blast
  next
    case lo: False
    show ?thesis
    proof (cases "\<bar>x\<bar> < pow2 1024")
      case True
      from lo have "pow2 (- 1022) \<le> \<bar>x\<bar>" by simp
      from normal_bracket_exists [OF this True] obtain e where
        e: "- 1022 \<le> e" "e \<le> 1023" "pow2 e \<le> \<bar>x\<bar>" "\<bar>x\<bar> < pow2 (e + 1)" by blast
      show ?thesis using that(3) [OF e fl64_normal [OF e(3) e(4) e(1) e(2)]] .
    next
      case False
      then have "pow2 1024 \<le> \<bar>x\<bar>" by simp
      then show ?thesis using that(4) fl64_overflow by blast
    qed
  qed
qed







section \<open>Properties of allocate_budget\<close>

lemma allocate_entry_zero_price:
  "price p = Fin 0 \<Longrightarrow> allocate_entry per tp sl p = Inl ZeroDivisionError"
  by (simp add: allocate_entry_def py_truediv_def)

lemma allocate_entry_nonzero_price:
  "price p \<noteq> Fin 0 \<Longrightarrow> \<exists>en. allocate_entry per tp sl p = Inr en"
  by (simp add: allocate_entry_def py_truediv_def Let_def)

lemma allocate_loop_zero_price:
  "\<exists>p \<in> set ps. price p = Fin 0 \<Longrightarrow> allocate_loop per tp sl ps plan = Inl ZeroDivisionError"
proof (induction ps arbitrary: plan)
  case Nil
  then show ?case by simp
next
  case (Cons p ps)
  show ?case
  proof (cases "allocate_entry per tp sl p")
    case (Inl e)
    then show ?thesis by (cases e) simp
  next
    case (Inr en)
    then have "price p \<noteq> Fin 0"
      using allocate_entry_zero_price [of p per tp sl] by auto
    with Cons.prems have "\<exists>p \<in> set ps. price p = Fin 0" by auto
    then show ?thesis using Cons.IH Inr by simp
  qed
qed

lemma allocate_loop_error_price:
  "allocate_loop per tp sl ps plan = Inl e \<Longrightarrow> \<exists>p \<in> set ps. price p = Fin 0"
proof (induction ps arbitrary: plan)
  case Nil
  then show ?case by simp
next
  case (Cons p ps)
  show ?case
  proof (cases "price p = Fin 0")
    case True
    then show ?thesis by simp
  next
    case False
    then obtain en where "allocate_entry per tp sl p = Inr en"
      using allocate_entry_nonzero_price by blast
    with Cons.prems have "allocate_loop per tp sl ps (plan @ [en]) = Inl e" by simp
    then show ?thesis using Cons.IH by auto
  qed
qed

lemma per_symbol_division:
  "picks \<noteq> [] \<Longrightarrow>
   py_truediv budget (Fin (of_nat (length picks))) = Inr (fdiv budget (Fin (of_nat (length picks))))"
  by (simp add: py_truediv_def)

text \<open>
  C7. For the empty picks list allocate_budget returns the empty plan, for every budget
  and both percentages. The division \<^verbatim>\<open>budget / n\<close> is only reached with a
  non-empty list, where its divisor is not zero and it returns a value; so an error of
  allocate_budget never comes from that division, only from a pick whose price is zero.
\<close>

theorem C7_empty_picks_no_division:
  "allocate_budget budget [] tp sl = Inr []
   \<and> (picks \<noteq> [] \<longrightarrow>
        py_truediv budget (Fin (of_nat (length picks)))
          = Inr (fdiv budget (Fin (of_nat (length picks)))))
   \<and> (allocate_budget budget picks tp sl = Inl e \<longrightarrow> (\<exists>p \<in> set picks. price p = Fin 0))"
proof -
  have a: "allocate_budget budget [] tp sl = Inr []"
    by (simp add: allocate_budget_def)
  have c: "allocate_budget budget picks tp sl = Inl e \<longrightarrow> (\<exists>p \<in> set picks. price p = Fin 0)"
  proof (cases "picks = []")
    case True
    then show ?thesis by (simp add: allocate_budget_def)
  next
    case False
    then show ?thesis
      using allocate_loop_error_price [of "fdiv budget (Fin (of_nat (length picks)))" tp sl picks "[]" e]
      by (simp add: allocate_budget_def per_symbol_division)
  qed
  show ?thesis using a c per_symbol_division by blast
qed

theorem C7_empty_picks_no_division_witness:
  "allocate_budget (Fin 1000) [] (Fin 0) (Fin 0) = Inr []
   \<and> py_truediv (Fin 1000) (Fin (of_nat (length [zero_pick])))
        = Inr (fdiv (Fin 1000) (Fin (of_nat (length [zero_pick]))))
   \<and> allocate_budget (Fin 1000) [zero_pick] (Fin 0) (Fin 0) = Inl ZeroDivisionError
   \<and> (\<exists>p \<in> set [zero_pick]. price p = Fin 0)"
proof -
  have e: "allocate_budget (Fin 1000) [zero_pick] (Fin 0) (Fin 0) = Inl ZeroDivisionError"
    by (simp add: allocate_budget_def py_truediv_def allocate_entry_def zero_pick_def)
  show ?thesis
    using C7_empty_picks_no_division
      [of "Fin 1000" "Fin 0" "Fin 0" "[zero_pick]" ZeroDivisionError] e
    by simp
qed

text \<open>
  C9. The loop divides by each pick's price without a guard: for every budget, if the
  non-empty picks list holds a pick whose price is 0.0, the call ends in
  ZeroDivisionError; no plan is returned and the entry is not skipped.
\<close>

theorem C9_zero_price_raises:
  "picks \<noteq> [] \<Longrightarrow> \<exists>p \<in> set picks. price p = Fin 0 \<Longrightarrow>
   allocate_budget budget picks tp sl = Inl ZeroDivisionError"
  using allocate_loop_zero_price [of picks "fdiv budget (Fin (of_nat (length picks)))" tp sl "[]"]
  by (simp add: allocate_budget_def per_symbol_division)

theorem C9_zero_price_raises_witness:
  "[zero_pick] \<noteq> [] \<and> (\<exists>p \<in> set [zero_pick]. price p = Fin 0)
   \<and> allocate_budget (Fin 1000) [zero_pick] (Fin 0) (Fin 0) = Inl ZeroDivisionError"
proof -
  have h: "\<exists>p \<in> set [zero_pick]. price p = Fin 0"
    by (simp add: zero_pick_def)
  show ?thesis
    using h C9_zero_price_raises [of "[zero_pick]" "Fin 1000" "Fin 0" "Fin 0"] by simp
qed

lemma allocate_entry_spec:
  "price p \<noteq> Fin 0 \<Longrightarrow> allocate_entry per tp sl p = Inr (spec_entry per tp sl p)"
  by (simp add: allocate_entry_def py_truediv_def spec_entry_def Let_def)

lemma allocate_loop_spec:
  "\<forall>p \<in> set ps. price p \<noteq> Fin 0 \<Longrightarrow>
   allocate_loop per tp sl ps plan = Inr (plan @ map (spec_entry per tp sl) ps)"
  by (induction ps arbitrary: plan) (simp_all add: allocate_entry_spec)

lemma allocate_budget_spec:
  assumes "picks \<noteq> []" "\<forall>p \<in> set picks. price p \<noteq> Fin 0"
  shows "allocate_budget budget picks tp sl
           = Inr (map (spec_entry (fdiv budget (Fin (of_nat (length picks)))) tp sl) picks)"
  using assms allocate_loop_spec [of picks "fdiv budget (Fin (of_nat (length picks)))" tp sl "[]"]
  by (simp add: allocate_budget_def per_symbol_division)

lemma flt_pos_nonzero: "flt (Fin 0) x \<Longrightarrow> x \<noteq> Fin 0"
  by auto

text \<open>Scenario D, step by step in binary64.\<close>

lemma lit_0_10: "lit (1 / 10) = Fin (3602879701896397 / 36028797018963968)"
  unfolding lit_def using fl64_normal [of "- 4" "1 / 10"] by (simp add: fl_eval)

lemma lit_0_05: "lit (1 / 20) = Fin (3602879701896397 / 72057594037927936)"
  unfolding lit_def using fl64_normal [of "- 5" "1 / 20"] by (simp add: fl_eval)

lemma one_plus_tp:
  "fadd (Fin 1) (Fin (3602879701896397 / 36028797018963968))
     = Fin (2476979795053773 / 2251799813685248)"
  using fl64_normal [of 0 "1 + 3602879701896397 / 36028797018963968"] by (simp add: fl_eval)

lemma one_minus_sl:
  "fsub (Fin 1) (Fin (3602879701896397 / 72057594037927936))
     = Fin (4278419646001971 / 4503599627370496)"
  using fl64_normal [of "- 1" "1 - 3602879701896397 / 72057594037927936"]
  by (simp add: fl_eval fsub_def)

lemma price_times_tp:
  "fmul (Fin 50) (Fin (2476979795053773 / 2251799813685248))
     = Fin (7740561859543041 / 140737488355328)"
  using fl64_normal [of 5 "50 * (2476979795053773 / 2251799813685248)"] by (simp add: fl_eval)

lemma price_times_sl:
  "fmul (Fin 50) (Fin (4278419646001971 / 4503599627370496)) = Fin (95 / 2)"
  using fl64_normal [of 5 "50 * (4278419646001971 / 4503599627370496)"] by (simp add: fl_eval)

lemma round_tp: "py_round (Fin (7740561859543041 / 140737488355328)) 2 = Fin 55"
  using fl64_normal [of 5 55] by (simp add: fl_eval)

lemma round_sl: "py_round (Fin (95 / 2)) 2 = Fin (95 / 2)"
  using fl64_normal [of 5 "95 / 2"] by (simp add: fl_eval)

lemma scenario_D:
  "py_round (fmul (Fin 50) (fadd (Fin 1) (lit (1 / 10)))) 2 = Fin 55
   \<and> py_round (fmul (Fin 50) (fsub (Fin 1) (lit (1 / 20)))) 2 = Fin (95 / 2)"
  by (simp only: lit_0_10 lit_0_05 one_plus_tp one_minus_sl price_times_tp price_times_sl
        round_tp round_sl)

text \<open>
  C5. For every budget, every non-empty picks list with positive prices and every pair of
  percentages, allocate_budget returns a plan with one entry per pick, and entry \<open>i\<close>
  has shares = round(per_symbol / price, 4), cost = round(shares * price, 2),
  take_profit_price = round(price * (1 + take_profit_pct), 2),
  stop_loss_price = round(price * (1 - stop_loss_pct), 2) and
  allocation = round(per_symbol, 2), with per_symbol = budget / count(picks). With the
  percentages 0.10 and 0.05 and the price 50.00 the two targets are 55.00 and 47.50.
\<close>

theorem C5_entry_formulas:
  assumes "picks \<noteq> []" and "\<forall>p \<in> set picks. flt (Fin 0) (price p)"
  shows "\<exists>plan. allocate_budget budget picks tp sl = Inr plan
           \<and> length plan = length picks
           \<and> (\<forall>i < length picks.
                 shares (plan ! i)
                   = py_round (fdiv (fdiv budget (Fin (of_nat (length picks)))) (price (picks ! i))) 4
               \<and> cost (plan ! i) = py_round (fmul (shares (plan ! i)) (price (picks ! i))) 2
               \<and> take_profit_price (plan ! i)
                   = py_round (fmul (price (picks ! i)) (fadd (Fin 1) tp)) 2
               \<and> stop_loss_price (plan ! i)
                   = py_round (fmul (price (picks ! i)) (fsub (Fin 1) sl)) 2
               \<and> allocation (plan ! i)
                   = py_round (fdiv budget (Fin (of_nat (length picks)))) 2
               \<and> (tp = lit (1 / 10) \<and> sl = lit (1 / 20) \<and> price (picks ! i) = Fin 50
                    \<longrightarrow> take_profit_price (plan ! i) = Fin 55
                        \<and> stop_loss_price (plan ! i) = Fin (95 / 2)))"
proof -
  let ?per = "fdiv budget (Fin (of_nat (length picks)))"
  have nz: "\<forall>p \<in> set picks. price p \<noteq> Fin 0"
    using assms(2) flt_pos_nonzero by blast
  have eq: "allocate_budget budget picks tp sl = Inr (map (spec_entry ?per tp sl) picks)"
    using assms(1) nz by (rule allocate_budget_spec)
  show ?thesis
    using eq scenario_D by (auto simp: spec_entry_def)
qed

theorem C5_entry_formulas_witness:
  "\<exists>plan. allocate_budget (Fin 900) [sample_pick ''AAA'' 50] (lit (1 / 10)) (lit (1 / 20)) = Inr plan
     \<and> length plan = 1
     \<and> take_profit_price (plan ! 0) = Fin 55
     \<and> stop_loss_price (plan ! 0) = Fin (95 / 2)
     \<and> allocation (plan ! 0) = py_round (fdiv (Fin 900) (Fin 1)) 2"
proof -
  have h: "\<forall>p \<in> set [sample_pick ''AAA'' 50]. flt (Fin 0) (price p)"
    by (simp add: sample_pick_def)
  have p: "price ([sample_pick ''AAA'' 50] ! 0) = Fin 50"
    by (simp add: sample_pick_def)
  from C5_entry_formulas [OF _ h, of "Fin 900" "lit (1 / 10)" "lit (1 / 20)"] p
  show ?thesis by auto
qed

section \<open>Properties of compute_score\<close>








lemma iloc_neg_in:
  "1 \<le> k \<Longrightarrow> k \<le> length close \<Longrightarrow> iloc_neg close k = Some (Fin (close ! (length close - k)))"
  by (simp add: iloc_neg_def)

lemma compute_score_some:
  assumes "20 \<le> length close"
  shows "compute_score rsi_indicator close =
     Some \<lparr> score =
              add_recent
                (add_sma
                  (add_rsi
                    (add_momentum (Fin 0)
                       (fsub (fdiv (Fin (close ! (length close - 1)))
                                   (Fin (close ! (length close - 10)))) (Fin 1)))
                    (rsi_of rsi_indicator close))
                  (rolling_mean_last 20 close)
                  (if 50 \<le> length close then rolling_mean_last 50 close
                   else Fin (close ! (length close - 1))))
                (pct_change_last close),
            momentum_10d = fsub (fdiv (Fin (close ! (length close - 1)))
                                      (Fin (close ! (length close - 10)))) (Fin 1),
            rsi = rsi_of rsi_indicator close,
            sma20 = rolling_mean_last 20 close,
            sma50 = (if 50 \<le> length close then rolling_mean_last 50 close
                     else Fin (close ! (length close - 1))),
            price = Fin (close ! (length close - 1)) \<rparr>"
  using assms
  by (simp add: compute_score_def momentum_of_def sma_of_def iloc_neg_def Let_def)







text \<open>
  C6. compute_score returns None exactly when the series has fewer than 20 closes. With
  20 closes or more a result is produced whatever the RSI library does: if it raises or
  yields NaN the result carries the neutral RSI 50.0; with fewer than 50 closes the
  result carries the latest close as sma50.
\<close>

theorem C6_null_iff_short:
  "(compute_score rsi_indicator close = None \<longleftrightarrow> length close < 20)
   \<and> (20 \<le> length close \<longrightarrow>
        (rsi_indicator close = None \<or> rsi_indicator close = Some NaN) \<longrightarrow>
          (\<exists>res. compute_score rsi_indicator close = Some res \<and> rsi res = Fin 50))
   \<and> (20 \<le> length close \<longrightarrow> length close < 50 \<longrightarrow>
          (\<exists>res. compute_score rsi_indicator close = Some res
             \<and> sma50 res = Fin (close ! (length close - 1))))"
proof -
  have a: "compute_score rsi_indicator close = None \<longleftrightarrow> length close < 20"
  proof
    assume "compute_score rsi_indicator close = None"
    then show "length close < 20"
      using compute_score_some [of close rsi_indicator] by (cases "length close < 20") auto
  next
    assume "length close < 20"
    then show "compute_score rsi_indicator close = None" by (simp add: compute_score_def)
  qed
  show ?thesis
    using a compute_score_some [of close rsi_indicator]
    by (auto simp: rsi_of_def)
qed

lemma fl64_int: "\<bar>n\<bar> < 2 ^ 53 \<Longrightarrow> fl64 (of_int n) = Fin (of_int n)"
proof -
  assume n: "\<bar>n\<bar> < 2 ^ 53"
  then have "(of_int \<bar>n\<bar> :: rat) < of_int (2 ^ 53)" by (simp only: of_int_less_iff)
  moreover have "pow2 53 < pow2 1024" by (rule pow2_strict_mono) simp
  ultimately have "\<bar>of_int n * pow2 0\<bar> < pow2 1024" by (simp add: pow2_0 pow2_53)
  from fl64_exact [OF n _ this] show ?thesis by (simp add: pow2_0)
qed

lemma fl64_numeral: "(numeral w :: int) < 2 ^ 53 \<Longrightarrow> fl64 (numeral w) = Fin (numeral w)"
  using fl64_int [of "numeral w"] by simp



lemma flat20_length: "length flat20 = 20"
  by (simp add: flat20_def)








lemma lit_0_8: "lit (8 / 10) = Fin (3602879701896397 / 4503599627370496)"
  unfolding lit_def using fl64_normal [of "- 1" "8 / 10"] by (simp add: fl_eval)









theorem C6_null_iff_short_witness:
  "compute_score rsi_undefined (take 19 flat20) = None
   \<and> compute_score rsi_undefined flat20 \<noteq> None
   \<and> (\<exists>res. compute_score rsi_undefined flat20 = Some res \<and> rsi res = Fin 50
         \<and> sma50 res = Fin (flat20 ! (length flat20 - 1)))"
  using C6_null_iff_short [of rsi_undefined flat20]
    C6_null_iff_short [of rsi_undefined "take 19 flat20"]
  by (auto simp add: flat20_length rsi_undefined_def)

section \<open>Properties of pick_top_symbols\<close>




































section \<open>The budget is not validated\<close>
















section \<open>The sum of the allocations\<close>

lemma round_to_grid_error:
  assumes "0 < q"
  shows "\<bar>of_int (round_half_even (v / q)) * q - v\<bar> \<le> q / 2"
proof -
  have "\<bar>of_int (round_half_even (v / q)) - v / q\<bar> \<le> 1 / 2" by (rule rhe_error)
  then have "\<bar>of_int (round_half_even (v / q)) - v / q\<bar> * q \<le> 1 / 2 * q"
    using assms by (intro mult_right_mono) simp_all
  moreover have "\<bar>of_int (round_half_even (v / q)) - v / q\<bar> * q
                  = \<bar>of_int (round_half_even (v / q)) * q - v\<bar>"
  proof -
    have "(of_int (round_half_even (v / q)) - v / q) * q
            = of_int (round_half_even (v / q)) * q - v"
      using assms by (simp add: algebra_simps)
    then have "\<bar>(of_int (round_half_even (v / q)) - v / q) * q\<bar>
            = \<bar>of_int (round_half_even (v / q)) * q - v\<bar>" by simp
    then show ?thesis using assms by (simp add: abs_mult)
  qed
  ultimately show ?thesis by simp
qed

lemma fl64_close:
  assumes "\<bar>v\<bar> \<le> 10 ^ 12 + 1"
  shows "\<exists>w. fl64 v = Fin w \<and> \<bar>w - v\<bar> \<le> 1 / 1000"
proof (cases v rule: fl64_cases)
  case zero
  then show ?thesis by (simp add: fl64_0)
next
  case subnormal
  have "\<bar>of_int (round_half_even (v / pow2 (- 1074))) * pow2 (- 1074) - v\<bar> \<le> pow2 (- 1074) / 2"
    by (rule round_to_grid_error) (rule pow2_pos)
  moreover have "pow2 (- 1074) \<le> pow2 (- 11)" by (rule pow2_mono) simp
  moreover have "pow2 (- 11) / 2 \<le> 1 / 1000" by (simp add: pow2_def)
  ultimately have "\<bar>of_int (round_half_even (v / pow2 (- 1074))) * pow2 (- 1074) - v\<bar> \<le> 1 / 1000"
    by linarith
  then show ?thesis using subnormal(3) by simp
next
  case (normal e)
  have "(10 ^ 12 + 1 :: rat) < pow2 41" by (simp add: pow2_def)
  then have "pow2 e < pow2 41" using normal(3) assms by linarith
  then have e: "e < 41" by (rule pow2_less_cancel)
  then have nov: "\<not> (e = 1023 \<and> \<bar>round_half_even (v / pow2 (e - 52))\<bar> = 2 ^ 53)" by simp
  have "\<bar>of_int (round_half_even (v / pow2 (e - 52))) * pow2 (e - 52) - v\<bar> \<le> pow2 (e - 52) / 2"
    by (rule round_to_grid_error) (rule pow2_pos)
  moreover have "pow2 (e - 52) \<le> pow2 (- 11)" using e by (intro pow2_mono) simp
  moreover have "pow2 (- 11) / 2 \<le> 1 / 1000" by (simp add: pow2_def)
  ultimately have "\<bar>of_int (round_half_even (v / pow2 (e - 52))) * pow2 (e - 52) - v\<bar> \<le> 1 / 1000"
    by linarith
  then show ?thesis using normal(5) nov by simp
next
  case overflow
  have "(10 ^ 12 + 1 :: rat) < pow2 1024"
  proof -
    have "(10 ^ 12 + 1 :: rat) < pow2 41" by (simp add: pow2_def)
    moreover have "pow2 41 \<le> pow2 1024" by (rule pow2_mono) simp
    ultimately show ?thesis by linarith
  qed
  then show ?thesis using overflow(1) assms by linarith
qed

lemma py_round_close:
  assumes "\<bar>v\<bar> \<le> 10 ^ 12"
  shows "\<exists>w. py_round (Fin v) 2 = Fin w \<and> \<bar>w - v\<bar> \<le> 1 / 200 + 1 / 1000"
proof -
  let ?y = "of_int (round_half_even (v * 10 ^ 2)) / 10 ^ 2 :: rat"
  have "\<bar>of_int (round_half_even (v / (1 / 100))) * (1 / 100) - v\<bar> \<le> (1 / 100) / 2"
    by (rule round_to_grid_error) simp
  then have y: "\<bar>?y - v\<bar> \<le> 1 / 200" by simp
  then have "\<bar>?y\<bar> \<le> 10 ^ 12 + 1" using assms by linarith
  from fl64_close [OF this] obtain w where w: "fl64 ?y = Fin w" "\<bar>w - ?y\<bar> \<le> 1 / 1000" by blast
  have "\<bar>w - v\<bar> \<le> 1 / 200 + 1 / 1000" using y w(2) by linarith
  then show ?thesis using w(1) by simp
qed

lemma allocation_sum_bound:
  assumes n: "2 \<le> n" and b: "\<bar>b\<bar> \<le> 10 ^ 12"
  shows "\<exists>a r. py_round (fdiv (Fin b) (Fin (of_nat n))) 2 = Fin a
           \<and> py_round (Fin b) 2 = Fin r
           \<and> \<bar>of_nat n * a - r\<bar> \<le> of_nat n * (1 / 100)"
proof -
  let ?n = "of_nat n :: rat"
  have n2: "2 \<le> ?n" using n by simp
  let ?x = "b / ?n"
  have xh: "\<bar>?x\<bar> \<le> \<bar>b\<bar> / 2"
  proof -
    have "\<bar>b\<bar> / ?n \<le> \<bar>b\<bar> / 2" using n2 by (intro divide_left_mono) simp_all
    then show ?thesis using n2 by simp
  qed
  then have "\<bar>?x\<bar> \<le> 10 ^ 12 + 1" using b by linarith
  from fl64_close [OF this] obtain p where p: "fl64 ?x = Fin p" "\<bar>p - ?x\<bar> \<le> 1 / 1000" by blast
  have per: "fdiv (Fin b) (Fin ?n) = Fin p" using p(1) n2 by simp
  have big: "(1 :: rat) \<le> 10 ^ 12" by simp
  have "\<bar>p\<bar> \<le> 10 ^ 12" using p(2) xh b big by linarith
  from py_round_close [OF this] obtain a where
    a: "py_round (Fin p) 2 = Fin a" "\<bar>a - p\<bar> \<le> 1 / 200 + 1 / 1000" by blast
  from py_round_close [OF b] obtain r where
    r: "py_round (Fin b) 2 = Fin r" "\<bar>r - b\<bar> \<le> 1 / 200 + 1 / 1000" by blast
  have "\<bar>a - ?x\<bar> \<le> 1 / 200 + 2 / 1000" using a(2) p(2) by linarith
  then have "\<bar>a - ?x\<bar> * ?n \<le> (1 / 200 + 2 / 1000) * ?n"
    using n2 by (intro mult_right_mono) simp_all
  moreover have "\<bar>a - ?x\<bar> * ?n = \<bar>?n * a - b\<bar>"
  proof -
    have "(a - ?x) * ?n = ?n * a - b" using n2 by (simp add: algebra_simps)
    then have "\<bar>(a - ?x) * ?n\<bar> = \<bar>?n * a - b\<bar>" by simp
    then show ?thesis using n2 by (simp add: abs_mult)
  qed
  ultimately have "\<bar>?n * a - b\<bar> \<le> (1 / 200 + 2 / 1000) * ?n" by simp
  then have "\<bar>?n * a - r\<bar> \<le> (1 / 200 + 2 / 1000) * ?n + 1 / 200 + 1 / 1000"
    using r(2) by linarith
  also have "\<dots> \<le> ?n * (1 / 100)" using n2 by (simp add: algebra_simps)
  finally show ?thesis using per a(1) r(1) by auto
qed

lemma allocation_single:
  assumes "is_float (Fin b)" and "\<bar>b\<bar> \<le> 10 ^ 12"
  shows "\<exists>a. py_round (fdiv (Fin b) (Fin (of_nat 1))) 2 = Fin a \<and> py_round (Fin b) 2 = Fin a"
proof -
  have "fdiv (Fin b) (Fin (of_nat 1)) = Fin b" using assms(1) by (simp add: is_float_def)
  moreover obtain a where "py_round (Fin b) 2 = Fin a"
    using py_round_close [OF assms(2)] by blast
  ultimately show ?thesis by simp
qed

text \<open>
  C4 (as amended). For every float budget of magnitude at most \<open>10^12\<close> and every
  non-empty picks list with positive prices, allocate_budget returns a plan whose
  entries all carry the same finite allocation \<open>a\<close>, and the sum of the allocation
  fields, \<open>count(picks) * a\<close>, differs from round(budget, 2) by at most
  \<open>count(picks) * 0.01\<close>.
\<close>

theorem C4_allocation_sum_tolerance:
  assumes "picks \<noteq> []" and "\<forall>p \<in> set picks. flt (Fin 0) (price p)"
    and "is_float (Fin b)" and "\<bar>b\<bar> \<le> 10 ^ 12"
  shows "\<exists>plan a r. allocate_budget (Fin b) picks tp sl = Inr plan
           \<and> length plan = length picks
           \<and> (\<forall>e \<in> set plan. allocation e = Fin a)
           \<and> py_round (Fin b) 2 = Fin r
           \<and> \<bar>of_nat (length picks) * a - r\<bar> \<le> of_nat (length picks) * (1 / 100)"
proof -
  let ?n = "length picks"
  let ?per = "fdiv (Fin b) (Fin (of_nat ?n))"
  have nz: "\<forall>p \<in> set picks. price p \<noteq> Fin 0"
    using assms(2) flt_pos_nonzero by blast
  have eq: "allocate_budget (Fin b) picks tp sl = Inr (map (spec_entry ?per tp sl) picks)"
    using assms(1) nz by (rule allocate_budget_spec)
  have al: "\<forall>e \<in> set (map (spec_entry ?per tp sl) picks). allocation e = py_round ?per 2"
    by (simp add: spec_entry_def)
  have "\<exists>a r. py_round ?per 2 = Fin a \<and> py_round (Fin b) 2 = Fin r
           \<and> \<bar>of_nat ?n * a - r\<bar> \<le> of_nat ?n * (1 / 100)"
  proof (cases "?n = 1")
    case True
    from allocation_single [OF assms(3,4)] obtain a where
      "py_round (fdiv (Fin b) (Fin (of_nat 1))) 2 = Fin a" "py_round (Fin b) 2 = Fin a" by blast
    then show ?thesis using True by auto
  next
    case False
    moreover have "?n \<noteq> 0" using assms(1) by simp
    ultimately have "2 \<le> ?n" by linarith
    then show ?thesis using assms(4) by (rule allocation_sum_bound)
  qed
  then obtain a r where ar: "py_round ?per 2 = Fin a" "py_round (Fin b) 2 = Fin r"
    "\<bar>of_nat ?n * a - r\<bar> \<le> of_nat ?n * (1 / 100)" by blast
  show ?thesis
    using eq al ar by (intro exI [of _ "map (spec_entry ?per tp sl) picks"] exI [of _ a] exI [of _ r]) simp
qed

lemma three_picks_prices: "\<forall>p \<in> set three_picks. flt (Fin 0) (price p)"
  by (simp add: three_picks_def sample_pick_def)

lemma large_per: "fl64 (200000000000000 / 3) = Fin (8533333333333333 / 128)"
  using fl64_normal [of 45 "200000000000000 / 3"] by (simp add: fl_eval)

lemma large_rounded: "fl64 (3333333333333333 / 50) = Fin (2133333333333333 / 32)"
  using fl64_normal [of 45 "3333333333333333 / 50"] by (simp add: fl_eval)

lemma large_allocation: "py_round (Fin (8533333333333333 / 128)) 2 = Fin (2133333333333333 / 32)"
  by (simp add: fl_eval large_rounded)

lemma large_budget_round: "py_round (Fin 200000000000000) 2 = Fin 200000000000000"
  by (simp add: fl_eval fl64_numeral)

lemma large_sum_1: "fl64 (2133333333333333 / 32) = Fin (2133333333333333 / 32)"
  using fl64_normal [of 45 "2133333333333333 / 32"] by (simp add: fl_eval)

lemma large_sum_2: "fl64 (2133333333333333 / 16) = Fin (2133333333333333 / 16)"
  using fl64_normal [of 46 "2133333333333333 / 16"] by (simp add: fl_eval)

lemma large_sum_3: "fl64 (6399999999999999 / 32) = Fin (6399999999999999 / 32)"
  using fl64_normal [of 47 "6399999999999999 / 32"] by (simp add: fl_eval)

lemma allocations_spec:
  "allocations (Inr (map (spec_entry per tp sl) picks)) = replicate (length picks) (py_round per 2)"
  by (simp add: allocations_def spec_entry_def map_replicate_const comp_def)

text \<open>
  For the budget \<open>2 * 10^14\<close> and three picks the claim as stated fails: floats of that
  size are 1/32 apart, each allocation is 66666666666666.65625, and the sum of the three,
  taken exactly or added as floats, is 1/32 = 0.03125 below the budget, more than the
  tolerance 0.03.
\<close>

theorem C4_large_budget_counterexample:
  "is_float (Fin 200000000000000)
   \<and> allocations (allocate_budget (Fin 200000000000000) three_picks (Fin 0) (Fin 0))
       = [Fin (2133333333333333 / 32), Fin (2133333333333333 / 32), Fin (2133333333333333 / 32)]
   \<and> py_round (Fin 200000000000000) 2 = Fin 200000000000000
   \<and> \<not> \<bar>3 * (2133333333333333 / 32) - 200000000000000\<bar> \<le> (3 * (1 / 100) :: rat)
   \<and> foldl fadd (Fin 0)
        [Fin (2133333333333333 / 32), Fin (2133333333333333 / 32), Fin (2133333333333333 / 32)]
       = Fin (6399999999999999 / 32)
   \<and> \<not> \<bar>6399999999999999 / 32 - 200000000000000\<bar> \<le> (3 * (1 / 100) :: rat)"
proof -
  have eq: "allocate_budget (Fin 200000000000000) three_picks (Fin 0) (Fin 0)
          = Inr (map (spec_entry (fdiv (Fin 200000000000000) (Fin (of_nat (length three_picks))))
                   (Fin 0) (Fin 0)) three_picks)"
    using three_picks_prices flt_pos_nonzero
    by (intro allocate_budget_spec) (auto simp: three_picks_def)
  have per: "fdiv (Fin 200000000000000) (Fin (of_nat (length three_picks)))
                   = Fin (8533333333333333 / 128)"
    by (simp add: three_picks_def large_per)
  have len: "replicate (length three_picks) (Fin (2133333333333333 / 32))
       = [Fin (2133333333333333 / 32), Fin (2133333333333333 / 32), Fin (2133333333333333 / 32)]"
    by (simp add: three_picks_def)
  have a: "allocations (allocate_budget (Fin 200000000000000) three_picks (Fin 0) (Fin 0))
       = [Fin (2133333333333333 / 32), Fin (2133333333333333 / 32), Fin (2133333333333333 / 32)]"
    by (simp only: eq allocations_spec per large_allocation len)
  have s: "foldl fadd (Fin 0)
        [Fin (2133333333333333 / 32), Fin (2133333333333333 / 32), Fin (2133333333333333 / 32)]
       = Fin (6399999999999999 / 32)"
    by (simp add: large_sum_1 large_sum_2 large_sum_3)
  have f: "is_float (Fin 200000000000000)" by (simp add: is_float_def fl64_numeral)
  show ?thesis using a s f large_budget_round by simp
qed

theorem C4_allocation_sum_tolerance_witness:
  "three_picks \<noteq> [] \<and> is_float (Fin 900) \<and> \<bar>900 :: rat\<bar> \<le> 10 ^ 12
   \<and> (\<exists>plan a r. allocate_budget (Fin 900) three_picks (Fin 0) (Fin 0) = Inr plan
         \<and> length plan = 3
         \<and> allocation (plan ! 0) = Fin a
         \<and> py_round (Fin 900) 2 = Fin r
         \<and> \<bar>3 * a - r\<bar> \<le> 3 * (1 / 100))"
proof -
  have f: "is_float (Fin 900)" by (simp add: is_float_def fl64_numeral)
  have n: "three_picks \<noteq> []" "length three_picks = 3" by (simp_all add: three_picks_def)
  from C4_allocation_sum_tolerance [OF n(1) three_picks_prices f, of "Fin 0" "Fin 0"]
  obtain plan a r where
    p: "allocate_budget (Fin 900) three_picks (Fin 0) (Fin 0) = Inr plan"
      "length plan = length three_picks"
      "\<forall>e \<in> set plan. allocation e = Fin a"
      "py_round (Fin 900) 2 = Fin r"
      "\<bar>of_nat (length three_picks) * a - r\<bar> \<le> of_nat (length three_picks) * (1 / 100)"
    by auto
  have "plan ! 0 \<in> set plan" using p(2) n(2) by simp
  then have "allocation (plan ! 0) = Fin a" using p(3) by blast
  then show ?thesis using p n f by auto
qed

end
